theory Spec2Isabelle
  imports Main "HOL-Library.AList"
begin

section \<open>The command-line parser of commandline-parser.py\<close>

text \<open>
  The module defines a class \<open>Command\<close> (a schema node that is built by mutating
  method calls), the function \<open>parse_arg\<close> (value dispatch) and five exception classes
  derived from \<open>CommandLineError\<close>.

  Conventions of the embedding:
  \<^item> a Python \<open>str\<close> is a \<open>string\<close>; code points above 255 are outside the model;
  \<^item> a Python \<open>dict\<close> is an association list in insertion order: assigning to a key
    that is present replaces the value in place, a new key is appended (\<open>AList.update\<close>);
  \<^item> \<open>Command\<close> objects live in a store, a function from addresses to object states,
    which every method takes and returns; a reference to a \<open>Command\<close> is its address;
  \<^item> a raised exception is the \<open>Inl\<close> of a sum type;
  \<^item> text written to standard output (usage text, rendered error messages) is not
    modelled.
\<close>

subsection \<open>Strings\<close>

text \<open>\<open>arg.startswith("-")\<close>.\<close>

definition startswith :: "string \<Rightarrow> string \<Rightarrow> bool" where
  "startswith s p = (take (length p) s = p)"

text \<open>
  \<open>arg.partition("=")\<close>: the part before the first \<open>=\<close>, the separator and the part
  after it; the string itself and two empty strings when there is no \<open>=\<close>.
\<close>

definition partition_str :: "string \<Rightarrow> char \<Rightarrow> string \<times> string \<times> string" where
  "partition_str s sep =
     (case dropWhile (\<lambda>c. c \<noteq> sep) s of
        [] \<Rightarrow> (s, [], [])
      | _ # after \<Rightarrow> (takeWhile (\<lambda>c. c \<noteq> sep) s, [sep], after))"

text \<open>\<open>sep.join(xs)\<close>.\<close>

fun join :: "string \<Rightarrow> string list \<Rightarrow> string" where
  "join sep [] = []"
| "join sep [x] = x"
| "join sep (x # y # ys) = x @ sep @ join sep (y # ys)"

text \<open>
  \<open>str.lower()\<close> on code points below 256: the ASCII capitals and the Latin-1 capitals
  (192 to 222 without the multiplication sign 215) move up by 32.
\<close>

definition lower_char :: "char \<Rightarrow> char" where
  "lower_char c =
     (let n = (of_char c :: nat)
      in if (65 \<le> n \<and> n \<le> 90) \<or> (192 \<le> n \<and> n \<le> 222 \<and> n \<noteq> 215)
         then char_of (n + 32) else c)"

definition lower :: "string \<Rightarrow> string" where
  "lower s = map lower_char s"

text \<open>
  The characters that \<open>int\<close> and \<open>float\<close> strip from both ends of a \<open>str\<close>: the
  code points below 256 for which \<open>str.isspace\<close> holds.
\<close>

definition isspace :: "char \<Rightarrow> bool" where
  "isspace c =
     (let n = (of_char c :: nat)
      in (9 \<le> n \<and> n \<le> 13) \<or> (28 \<le> n \<and> n \<le> 32) \<or> n = 133 \<or> n = 160)"

definition strip :: "string \<Rightarrow> string" where
  "strip s = rev (dropWhile isspace (rev (dropWhile isspace s)))"

definition isdigit :: "char \<Rightarrow> bool" where
  "isdigit c = (let n = (of_char c :: nat) in 48 \<le> n \<and> n \<le> 57)"

definition digit_value :: "char \<Rightarrow> int" where
  "digit_value c = int (of_char c) - 48"

subsection \<open>The built-in conversions \<open>int(val)\<close> and \<open>float(val)\<close> on a \<open>str\<close>\<close>

text \<open>
  \<open>int(val)\<close> accepts, between optional white space, an optional sign and decimal digits
  in which single underscores may stand between two digits. \<open>None\<close> is \<open>ValueError\<close>.
  CPython also refuses more than \<open>sys.int_info.default_max_str_digits = 4300\<close> digits.
\<close>

fun int_digits :: "string \<Rightarrow> int list option" where
  "int_digits [] = None"
| "int_digits [c] = (if isdigit c then Some [digit_value c] else None)"
| "int_digits (c # d # cs) =
     (if isdigit c
      then map_option ((#) (digit_value c))
             (if d = CHR ''_'' then int_digits cs else int_digits (d # cs))
      else None)"

definition max_str_digits :: nat where
  "max_str_digits = 4300"

definition py_int :: "string \<Rightarrow> int option" where
  "py_int val =
     (let s = strip val;
          negative = startswith s ''-'';
          body = (if startswith s ''-'' \<or> startswith s ''+'' then tl s else s)
      in case int_digits body of
           None \<Rightarrow> None
         | Some ds \<Rightarrow>
             if length ds > max_str_digits then None
             else let n = foldl (\<lambda>a d. 10 * a + d) 0 ds
                  in Some (if negative then - n else n))"

text \<open>
  \<open>float(val)\<close>: underscores are allowed only between two digits and are removed
  first; then white space is stripped from both ends; what is left is an optional
  sign followed by \<open>inf\<close>, \<open>infinity\<close> or \<open>nan\<close> in any case, or by a decimal number with
  an optional exponent. The model decides which strings are accepted; it keeps the
  accepted literal as the value and does not round it to a binary64 number.
\<close>

fun remove_underscores :: "char \<Rightarrow> string \<Rightarrow> string option" where
  "remove_underscores prev [] = (if prev = CHR ''_'' then None else Some [])"
| "remove_underscores prev (c # cs) =
     (if c = CHR ''_''
      then (if isdigit prev then remove_underscores c cs else None)
      else if prev = CHR ''_'' \<and> \<not> isdigit c then None
      else map_option ((#) c) (remove_underscores c cs))"

definition ascii_lower :: "char \<Rightarrow> char" where
  "ascii_lower c =
     (let n = (of_char c :: nat) in if 65 \<le> n \<and> n \<le> 90 then char_of (n + 32) else c)"

definition exponent_part :: "string \<Rightarrow> bool" where
  "exponent_part s =
     (case s of
        [] \<Rightarrow> True
      | e # rest \<Rightarrow>
          (e = CHR ''e'' \<or> e = CHR ''E'') \<and>
          (let ds = (if startswith rest ''-'' \<or> startswith rest ''+'' then tl rest else rest)
           in ds \<noteq> [] \<and> list_all isdigit ds))"

definition decimal_number :: "string \<Rightarrow> bool" where
  "decimal_number s =
     (let ip = takeWhile isdigit s;
          r1 = dropWhile isdigit s;
          fp = (if startswith r1 ''.'' then takeWhile isdigit (tl r1) else []);
          r2 = (if startswith r1 ''.'' then dropWhile isdigit (tl r1) else r1)
      in (ip \<noteq> [] \<or> fp \<noteq> []) \<and> exponent_part r2)"

definition float_literal :: "string \<Rightarrow> bool" where
  "float_literal s =
     (let body = (if startswith s ''-'' \<or> startswith s ''+'' then tl s else s)
      in map ascii_lower body \<in> set [''inf'', ''infinity'', ''nan''] \<or> decimal_number body)"

definition py_float :: "string \<Rightarrow> string option" where
  "py_float val =
     (case remove_underscores (CHR 0x00) val of
        None \<Rightarrow> None
      | Some t \<Rightarrow> if float_literal (strip t) then Some (strip t) else None)"

subsection \<open>Values, exceptions, argument definitions\<close>

text \<open>
  The values that a parse result holds: what \<open>parse_arg\<close> produces, what a custom
  callable returns, a \<open>default\<close>, and the nested result of a subcommand.
\<close>

datatype pval =
    VNone
  | VStr string
  | VInt int
  | VFloat string
  | VBool bool
  | VDict "(string \<times> pval) list"

type_synonym dict = "(string \<times> pval) list"

text \<open>The subclasses of \<open>CommandLineError\<close>, with the arguments of their constructors.\<close>

datatype error =
    UnknownSwitch nat string
  | MissingOption string
  | TooManyPositionals nat string
  | InvalidOption nat string string
  | ValueNotProvided nat

text \<open>The attributes \<open>index\<close> and \<open>message\<close> that each constructor sets.\<close>

fun index :: "error \<Rightarrow> nat option" where
  "index (UnknownSwitch i switch) = Some i"
| "index (MissingOption option) = None"
| "index (TooManyPositionals i val) = Some i"
| "index (InvalidOption i expected got) = Some i"
| "index (ValueNotProvided i) = Some i"

fun message :: "error \<Rightarrow> string" where
  "message (UnknownSwitch i switch) = ''Unknown switch: '' @ switch"
| "message (MissingOption option) = ''Missing option: '' @ option"
| "message (TooManyPositionals i val) = ''Too many arguments received: '' @ val"
| "message (InvalidOption i expected got) = ''Expected '' @ expected @ '', got '' @ got"
| "message (ValueNotProvided i) = ''Value not provided for a non-boolean option''"

text \<open>
  Everything that can be raised: a \<open>CommandLineError\<close>, \<open>SystemExit\<close> from
  \<open>sys.exit(status)\<close>, a failed \<open>assert\<close>, \<open>TypeError\<close> (calling a parser that is not
  callable), \<open>ValueError\<close> (a failed unpacking), and whatever else a custom callable
  raises.
\<close>

datatype exn =
    CommandLineError error
  | SystemExit int
  | AssertionError
  | TypeError
  | ValueError
  | OtherException string

text \<open>
  The \<open>parser\<close> entry of a definition: a string (the tags \<open>"str"\<close>, \<open>"int"\<close>, \<open>"float"\<close>,
  \<open>"bool"\<close>), a list of allowed strings, or a callable taking the token index, the
  switch alias or \<open>None\<close>, and the raw value or \<open>None\<close>. A callable is modelled by
  what it returns or raises.
\<close>

datatype parser_spec =
    Tag string
  | Choices "string list"
  | Callable "nat \<Rightarrow> string option \<Rightarrow> string option \<Rightarrow> exn + pval"

text \<open>
  The dictionaries that \<open>positional\<close> and \<open>switch\<close> store. A positional has the
  keys \<open>"name"\<close>, \<open>"description"\<close>, \<open>"parser"\<close> and \<open>"optional"\<close>; a switch has
  \<open>"switches"\<close> in addition, and \<open>"default"\<close> only if the keyword was passed. The keys
  \<open>"description"\<close>, \<open>"switches"\<close> and \<open>"default"\<close> carry a prefix here because
  \<open>Command\<close> has attributes of the same names.
\<close>

record argdef =
  name :: string
  arg_description :: string
  parser :: parser_spec
  optional :: bool

record switch_info = argdef +
  arg_switches :: "string list"
  arg_default :: "pval option"

subsection \<open>\<open>parse_arg\<close>\<close>

text \<open>
  The source first raises \<open>ValueNotProvided(i)\<close> when \<open>parser != "bool" and val == None\<close>
  and then dispatches on \<open>parser\<close>. With \<open>val == None\<close> only the \<open>"bool"\<close> branch is
  left, and its test \<open>val == None or ...\<close> yields \<open>True\<close>. A string that is none of the
  four tags reaches \<open>parser(i, arg, val)\<close>, which raises \<open>TypeError\<close>.
\<close>

definition parse_arg :: "nat \<Rightarrow> string option \<Rightarrow> string option \<Rightarrow> 'a argdef_scheme \<Rightarrow> exn + dict" where
  "parse_arg i arg val argdef =
     (if parser argdef \<noteq> Tag ''bool'' \<and> val = None
      then Inl (CommandLineError (ValueNotProvided i))
      else
        case
          (case val of
             None \<Rightarrow> Inr (VBool True)
           | Some v \<Rightarrow>
               (case parser argdef of
                  Tag t \<Rightarrow>
                    if t = ''str'' then Inr (VStr v)
                    else if t = ''int'' then
                      (case py_int v of
                         Some n \<Rightarrow> Inr (VInt n)
                       | None \<Rightarrow> Inl (CommandLineError (InvalidOption i ''int'' v)))
                    else if t = ''float'' then
                      (case py_float v of
                         Some x \<Rightarrow> Inr (VFloat x)
                       | None \<Rightarrow> Inl (CommandLineError (InvalidOption i ''float'' v)))
                    else if t = ''bool'' then
                      (if lower v \<in> set [''1'', ''true''] then Inr (VBool True)
                       else if lower v \<in> set [''0'', ''false''] then Inr (VBool False)
                       else Inl (CommandLineError (InvalidOption i ''bool switch'' v)))
                    else Inl TypeError
                | Choices vals \<Rightarrow>
                    if v \<in> set vals then Inr (VStr v)
                    else Inl (CommandLineError (InvalidOption i (join ''/'' vals) v))
                | Callable f \<Rightarrow> f i arg (Some v)))
        of
          Inl e \<Rightarrow> Inl e
        | Inr parsed_val \<Rightarrow> Inr [(name argdef, parsed_val)])"

subsection \<open>Result dictionaries\<close>

text \<open>
  \<open>a | b\<close> on dictionaries: the entries of \<open>b\<close> are assigned to a copy of \<open>a\<close> in
  order. A dictionary display \<open>{k1: v1, k2: v2}\<close> assigns its entries in order to an
  empty dictionary.
\<close>

definition dict_merge :: "dict \<Rightarrow> dict \<Rightarrow> dict" where
  "dict_merge a b = fold (\<lambda>(k, v). AList.update k v) b a"

definition dict_literal :: "dict \<Rightarrow> dict" where
  "dict_literal kvs = dict_merge [] kvs"

subsection \<open>The class \<open>Command\<close>: state and schema-building methods\<close>

type_synonym addr = nat

record command =
  description :: string
  positionals :: "argdef list"
  upcoming_positionals_optional :: bool
  switches :: "(string \<times> switch_info) list"
  subcommands :: "(string \<times> addr) list"
  subcommands_optional :: bool

type_synonym heap = "addr \<Rightarrow> command"

text \<open>What a method returns: a reference to a \<open>Command\<close>, or \<open>None\<close>.\<close>

datatype ret = Ref addr | PyNone

text \<open>\<open>__init__\<close>, run on the fresh object at address \<open>self\<close>.\<close>

definition init :: "heap \<Rightarrow> addr \<Rightarrow> string \<Rightarrow> heap" where
  "init h self descr =
     h(self := \<lparr>description = descr, positionals = [],
                 upcoming_positionals_optional = False, switches = [],
                 subcommands = [], subcommands_optional = False\<rparr>)"

definition positional ::
  "heap \<Rightarrow> addr \<Rightarrow> string \<Rightarrow> string \<Rightarrow> parser_spec \<Rightarrow> exn + heap \<times> ret" where
  "positional h self nm descr p =
     (if nm = ''command'' then Inl AssertionError
      else Inr (h(self := (h self)\<lparr>positionals := positionals (h self) @
                  [\<lparr>name = nm, arg_description = descr, parser = p,
                    optional = upcoming_positionals_optional (h self)\<rparr>]\<rparr>),
                Ref self))"

text \<open>The next two methods have no \<open>return\<close> statement.\<close>

definition optional_positionals :: "heap \<Rightarrow> addr \<Rightarrow> exn + heap \<times> ret" where
  "optional_positionals h self =
     Inr (h(self := (h self)\<lparr>upcoming_positionals_optional := True\<rparr>), PyNone)"

definition optional_subcommands :: "heap \<Rightarrow> addr \<Rightarrow> exn + heap \<times> ret" where
  "optional_subcommands h self =
     Inr (h(self := (h self)\<lparr>subcommands_optional := True\<rparr>), PyNone)"

text \<open>
  \<open>switch(switches, name, description, parser, *, optional=False, **kwargs)\<close>; the
  last argument is \<open>kwargs.get("default")\<close> when \<open>"default" in kwargs\<close>.
\<close>

definition switch ::
  "heap \<Rightarrow> addr \<Rightarrow> string list \<Rightarrow> string \<Rightarrow> string \<Rightarrow> parser_spec \<Rightarrow> bool \<Rightarrow> pval option
     \<Rightarrow> exn + heap \<times> ret" where
  "switch h self sws nm descr p opt dflt =
     (if nm = ''command'' then Inl AssertionError
      else let info = \<lparr>name = nm, arg_description = descr, parser = p, optional = opt,
                         arg_switches = sws, arg_default = dflt\<rparr>
           in Inr (h(self := (h self)\<lparr>switches :=
                       fold (\<lambda>sw d. AList.update sw info d) sws (switches (h self))\<rparr>),
                   Ref self))"

definition subcommand :: "heap \<Rightarrow> addr \<Rightarrow> string \<Rightarrow> addr \<Rightarrow> exn + heap \<times> ret" where
  "subcommand h self nm cmd =
     Inr (h(self := (h self)\<lparr>subcommands := AList.update nm cmd (subcommands (h self))\<rparr>),
          Ref self)"

subsection \<open>\<open>Command._parse\<close> and \<open>Command.parse\<close>\<close>

text \<open>
  A call returns the store it leaves and what it returned or raised. Recursion through
  the subcommands of a store need not end when the store holds a cycle, so \<open>parse\<close>
  and \<open>_print_usage\<close> count their nested activations down from a bound; \<open>None\<close> means
  that the bound did not suffice.
\<close>

type_synonym 'a outcome = "(heap \<times> (exn + 'a)) option"

text \<open>
  The first loop of \<open>_parse\<close>, over the pairs that are left in
  \<open>argv_iter = enumerate(sys.argv)\<close>. The parameter \<open>child_parse h cmd\<close> is the call
  \<open>cmd.parse(argv_iter)\<close>.
\<close>

fun parse_loop ::
  "(heap \<Rightarrow> addr \<Rightarrow> dict outcome) \<Rightarrow> heap \<Rightarrow> addr \<Rightarrow> dict \<Rightarrow> nat \<Rightarrow> (nat \<times> string) list
     \<Rightarrow> (dict \<times> nat) outcome" where
  "parse_loop child_parse h self out positional_index [] =
     Some (h, Inr (out, positional_index))"
| "parse_loop child_parse h self out positional_index ((i, arg) # argv_iter) =
     (if startswith arg ''-'' then
        (case partition_str arg (CHR ''='') of
           (sw, eq, v) \<Rightarrow>
             (let val = (if eq = [] then None else Some v)
              in case map_of (switches (h self)) sw of
                   Some info \<Rightarrow>
                     (case parse_arg i (Some sw) val info of
                        Inl e \<Rightarrow> Some (h, Inl e)
                      | Inr d \<Rightarrow>
                          parse_loop child_parse h self (dict_merge out d)
                            positional_index argv_iter)
                 | None \<Rightarrow> Some (h, Inl (CommandLineError (UnknownSwitch i sw)))))
      else
        (case map_of (subcommands (h self)) arg of
           Some cmd \<Rightarrow>
             (case child_parse h cmd of
                None \<Rightarrow> None
              | Some (h', r) \<Rightarrow>
                  (case r of
                     Inl e \<Rightarrow> Some (h', Inl e)
                   | Inr res \<Rightarrow>
                       parse_loop child_parse h' self
                         (dict_merge out (dict_literal [(''command'', VStr arg), (arg, VDict res)]))
                         positional_index argv_iter))
         | None \<Rightarrow>
             if positional_index \<ge> length (positionals (h self))
             then Some (h, Inl (CommandLineError (TooManyPositionals i arg)))
             else
               (case parse_arg i None (Some arg) (positionals (h self) ! positional_index) of
                  Inl e \<Rightarrow> Some (h, Inl e)
                | Inr d \<Rightarrow>
                    parse_loop child_parse h self (dict_merge out d)
                      (positional_index + 1) argv_iter)))"

text \<open>The loop over \<open>self.positionals\<close> after the tokens.\<close>

fun check_positionals :: "dict \<Rightarrow> argdef list \<Rightarrow> exn + unit" where
  "check_positionals out [] = Inr ()"
| "check_positionals out (p # ps) =
     (if \<not> optional p \<and> map_of out (name p) = None
      then Inl (CommandLineError (MissingOption (name p)))
      else check_positionals out ps)"

text \<open>The loop over \<open>self.switches.values()\<close>, which assigns defaults to \<open>out\<close>.\<close>

fun check_switches :: "dict \<Rightarrow> switch_info list \<Rightarrow> exn + dict" where
  "check_switches out [] = Inr out"
| "check_switches out (sw # sws) =
     (if \<not> optional sw \<and> map_of out (name sw) = None
      then (case arg_default sw of
              Some d \<Rightarrow> check_switches (AList.update (name sw) d out) sws
            | None \<Rightarrow>
                Inl (CommandLineError (MissingOption
                  (name sw @ '' ('' @ join '', '' (arg_switches sw) @ '')''))))
      else check_switches out sws)"

definition priv_parse ::
  "(heap \<Rightarrow> addr \<Rightarrow> dict outcome) \<Rightarrow> heap \<Rightarrow> addr \<Rightarrow> (nat \<times> string) list \<Rightarrow> dict outcome" where
  "priv_parse child_parse h self argv_iter =
     (case parse_loop child_parse h self [] 0 argv_iter of
        None \<Rightarrow> None
      | Some (h', r) \<Rightarrow>
          (case r of
             Inl e \<Rightarrow> Some (h', Inl e)
           | Inr (out, positional_index) \<Rightarrow>
               (case check_positionals out (positionals (h' self)) of
                  Inl e \<Rightarrow> Some (h', Inl e)
                | Inr _ \<Rightarrow>
                    (case check_switches out (map snd (switches (h' self))) of
                       Inl e \<Rightarrow> Some (h', Inl e)
                     | Inr out' \<Rightarrow>
                         if length (subcommands (h' self)) > 0
                            \<and> \<not> subcommands_optional (h' self)
                            \<and> map_of out' ''command'' = None
                         then Some (h', Inl (CommandLineError (MissingOption
                                (''command ('' @ join '', '' (map fst (subcommands (h' self)))
                                   @ '')''))))
                         else Some (h', Inr out')))))"

text \<open>
  \<open>_print_usage\<close> calls itself on every subcommand; only whether it returns is
  modelled.
\<close>

fun priv_print_usage :: "nat \<Rightarrow> heap \<Rightarrow> addr \<Rightarrow> unit option" where
  "priv_print_usage 0 h self = None"
| "priv_print_usage (Suc n) h self =
     (if list_all (\<lambda>(nm, cmd). priv_print_usage n h cmd = Some ()) (subcommands (h self))
      then Some () else None)"

text \<open>
  The argument \<open>binary\<close> of \<open>parse\<close>: a string, or (in the call from \<open>_parse\<close>) the
  caller's iterator over \<open>sys.argv\<close>.
\<close>

datatype binary_arg = BinaryName string | ArgvIter

text \<open>
  \<open>parse\<close> makes its own \<open>enumerate(sys.argv)\<close> and takes the first pair from it. Only
  when \<open>sys.argv\<close> is empty does \<open>next\<close> return \<open>binary\<close> instead, and the unpacking
  into two names raises \<open>ValueError\<close> unless \<open>binary\<close> has two elements (the caller's
  iterator over the empty \<open>sys.argv\<close> has none). \<open>argv\<close> is \<open>sys.argv\<close>.
\<close>

fun parse :: "nat \<Rightarrow> heap \<Rightarrow> addr \<Rightarrow> binary_arg \<Rightarrow> string list \<Rightarrow> dict outcome" where
  "parse 0 h self binary argv = None"
| "parse (Suc n) h self binary argv =
     (if argv = [] \<and> (case binary of BinaryName s \<Rightarrow> length s \<noteq> 2 | ArgvIter \<Rightarrow> True)
      then Some (h, Inl ValueError)
      else if length argv \<le> 1 \<or> ''--help'' \<in> set argv then
        (case priv_print_usage (Suc n) h self of
           None \<Rightarrow> None
         | Some _ \<Rightarrow> Some (h, Inl (SystemExit (- 1))))
      else
        (case priv_parse (\<lambda>h' cmd. parse n h' cmd ArgvIter argv) h self
                (tl (enumerate 0 argv)) of
           None \<Rightarrow> None
         | Some (h', r) \<Rightarrow>
             (case r of
                Inl e \<Rightarrow>
                  (case e of
                     CommandLineError err \<Rightarrow> Some (h', Inl (SystemExit (- 1)))
                   | _ \<Rightarrow> Some (h', Inl e))
              | Inr out \<Rightarrow> Some (h', Inr out))))"

text \<open>
  A store is nested below \<open>n\<close> at \<open>self\<close> when every chain of subcommands that starts
  at \<open>self\<close> has fewer than \<open>n\<close> nodes: the schema under \<open>self\<close> is a finite tree (or
  a graph without cycles) of depth below \<open>n\<close>.
\<close>

fun nested_below :: "nat \<Rightarrow> heap \<Rightarrow> addr \<Rightarrow> bool" where
  "nested_below 0 h self = False"
| "nested_below (Suc n) h self =
     list_all (\<lambda>(nm, cmd). nested_below n h cmd) (subcommands (h self))"

subsection \<open>Example schemas\<close>

text \<open>The state of a \<open>Command\<close> after \<open>__init__\<close>, and a store of such objects.\<close>

definition blank :: command where
  "blank = \<lparr>description = [], positionals = [], upcoming_positionals_optional = False,
             switches = [], subcommands = [], subcommands_optional = False\<rparr>"

definition no_commands :: heap where
  "no_commands = (\<lambda>_. blank)"

text \<open>
  The example schema of the specification, at address 0: a required string positional
  \<open>name\<close>, an optional integer switch \<open>--count\<close> with default 5, and a subcommand
  \<open>run\<close> (at address 1) without arguments.
\<close>

definition count_info :: switch_info where
  "count_info = \<lparr>name = ''count'', arg_description = [], parser = Tag ''int'',
                  optional = True, arg_switches = [''--count''],
                  arg_default = Some (VInt 5)\<rparr>"

definition name_positional :: argdef where
  "name_positional = \<lparr>name = ''name'', arg_description = [], parser = Tag ''str'',
                optional = False\<rparr>"

definition example_schema :: heap where
  "example_schema = no_commands
     (0 := blank\<lparr>positionals := [name_positional], switches := [(''--count'', count_info)],
                  subcommands := [(''run'', 1)]\<rparr>)"

text \<open>The same positional and switch, without a subcommand.\<close>

definition count_schema :: heap where
  "count_schema = no_commands
     (0 := blank\<lparr>positionals := [name_positional], switches := [(''--count'', count_info)]\<rparr>)"

text \<open>An integer switch \<open>x\<close> with the alias \<open>--x\<close>.\<close>

definition x_info :: switch_info where
  "x_info = \<lparr>name = ''x'', arg_description = [], parser = Tag ''int'', optional = False,
              arg_switches = [''--x''], arg_default = None\<rparr>"

definition x_schema :: heap where
  "x_schema = no_commands (0 := blank\<lparr>switches := [(''--x'', x_info)]\<rparr>)"

text \<open>An optional boolean switch \<open>verbose\<close> with the aliases \<open>-v\<close> and \<open>--verbose\<close>.\<close>

definition verbose_info :: switch_info where
  "verbose_info = \<lparr>name = ''verbose'', arg_description = [], parser = Tag ''bool'',
                    optional = True, arg_switches = [''-v'', ''--verbose''],
                    arg_default = None\<rparr>"

definition verbose_schema :: heap where
  "verbose_schema = no_commands
     (0 := blank\<lparr>switches := [(''-v'', verbose_info), (''--verbose'', verbose_info)]\<rparr>)"

text \<open>A switch \<open>--level\<close> whose list of allowed values has the empty string in it.\<close>

definition level_info :: switch_info where
  "level_info = \<lparr>name = ''level'', arg_description = [],
                  parser = Choices ['''', ''low'', ''high''], optional = True,
                  arg_switches = [''--level''], arg_default = None\<rparr>"

definition level_schema :: heap where
  "level_schema = no_commands (0 := blank\<lparr>switches := [(''--level'', level_info)]\<rparr>)"

text \<open>A definition whose parser is a callable that accepts any value, absent or not.\<close>

definition mode_arg :: argdef where
  "mode_arg = \<lparr>name = ''mode'', arg_description = [],
                parser = Callable (\<lambda>i arg val. Inr (case val of None \<Rightarrow> VNone | Some v \<Rightarrow> VStr v)),
                optional = False\<rparr>"

text \<open>
  A required integer switch \<open>port\<close> with the aliases \<open>-p\<close> and \<open>--port\<close> and the
  default 8080, beside the positional \<open>name\<close> and the optional switch \<open>--count\<close>.
\<close>

definition port_info :: switch_info where
  "port_info = \<lparr>name = ''port'', arg_description = [], parser = Tag ''int'',
                 optional = False, arg_switches = [''-p'', ''--port''],
                 arg_default = Some (VInt 8080)\<rparr>"

definition port_schema :: heap where
  "port_schema = no_commands
     (0 := blank\<lparr>positionals := [name_positional],
                  switches := [(''-p'', port_info), (''--port'', port_info),
                               (''--count'', count_info)]\<rparr>)"

text \<open>
  A command with a string positional \<open>target\<close> and a subcommand \<open>run\<close> (at address 1)
  that has the string positionals \<open>first\<close> and \<open>second\<close>.
\<close>

definition relay_schema :: heap where
  "relay_schema = no_commands
     (0 := blank\<lparr>positionals := [name_positional\<lparr>name := ''target''\<rparr>],
                  subcommands := [(''run'', 1)]\<rparr>,
      1 := blank\<lparr>positionals := [name_positional\<lparr>name := ''first''\<rparr>,
                                   name_positional\<lparr>name := ''second''\<rparr>]\<rparr>)"

section \<open>Properties\<close>

subsection \<open>Auxiliary facts\<close>

lemmas schema_defs = example_schema_def count_schema_def x_schema_def verbose_schema_def
  level_schema_def port_schema_def relay_schema_def no_commands_def blank_def count_info_def
  name_positional_def x_info_def verbose_info_def level_info_def port_info_def

lemmas info_defs = blank_def count_info_def name_positional_def x_info_def verbose_info_def
  level_info_def port_info_def

lemmas eval_defs = startswith_def partition_str_def strip_def isspace_def isdigit_def
  digit_value_def py_int_def max_str_digits_def parse_arg_def dict_merge_def dict_literal_def
  priv_parse_def enumerate_eq_zip

lemma x_schema_at: "x_schema 0 = blank\<lparr>switches := [(''--x'', x_info)]\<rparr>"
  by (simp add: x_schema_def)

lemma port_schema_at:
  "port_schema 0 = blank\<lparr>positionals := [name_positional],
     switches := [(''-p'', port_info), (''--port'', port_info), (''--count'', count_info)]\<rparr>"
  by (simp add: port_schema_def)

lemma partition_str_absent:
  "sep \<notin> set s \<Longrightarrow> partition_str s sep = (s, [], [])"
proof -
  assume "sep \<notin> set s"
  then have h: "dropWhile (\<lambda>c. c \<noteq> sep) s = []"
    by (induction s) auto
  show ?thesis unfolding partition_str_def h by simp
qed

lemma partition_str_present:
  "sep \<notin> set a \<Longrightarrow> partition_str (a @ sep # v) sep = (a, [sep], v)"
proof -
  assume a: "sep \<notin> set a"
  then have "dropWhile (\<lambda>c. c \<noteq> sep) (a @ sep # v) = sep # v"
    by (induction a) auto
  moreover from a have "takeWhile (\<lambda>c. c \<noteq> sep) (a @ sep # v) = a"
    by (induction a) auto
  ultimately show ?thesis by (simp add: partition_str_def)
qed

lemma startswith_dash: "startswith s ''-'' = (\<exists>r. s = CHR ''-'' # r)"
  by (cases s) (auto simp: startswith_def)

lemma parse_arg_absent:
  "parse_arg i arg None argdef =
     (if parser argdef = Tag ''bool'' then Inr [(name argdef, VBool True)]
      else Inl (CommandLineError (ValueNotProvided i)))"
  by (simp add: parse_arg_def)

lemma py_int_empty: "py_int [] = None"
  by (simp add: py_int_def strip_def startswith_def)

lemma py_float_empty: "py_float [] = None"
  by (simp add: py_float_def float_literal_def strip_def startswith_def decimal_number_def)

lemma parse_arg_empty:
  "parse_arg i arg (Some []) argdef =
     (case parser argdef of
        Tag t \<Rightarrow>
          if t = ''str'' then Inr [(name argdef, VStr [])]
          else if t = ''int'' then Inl (CommandLineError (InvalidOption i ''int'' []))
          else if t = ''float'' then Inl (CommandLineError (InvalidOption i ''float'' []))
          else if t = ''bool'' then Inl (CommandLineError (InvalidOption i ''bool switch'' []))
          else Inl TypeError
      | Choices vals \<Rightarrow>
          if [] \<in> set vals then Inr [(name argdef, VStr [])]
          else Inl (CommandLineError (InvalidOption i (join ''/'' vals) []))
      | Callable f \<Rightarrow>
          (case f i arg (Some []) of Inl e \<Rightarrow> Inl e | Inr x \<Rightarrow> Inr [(name argdef, x)]))"
  by (simp add: parse_arg_def py_int_empty py_float_empty lower_def split: parser_spec.splits)

lemma parse_loop_switch:
  assumes "startswith tok ''-''"
    and "partition_str tok (CHR ''='') = (sw, eq, v)"
    and "map_of (switches (h self)) sw = Some info"
  shows "parse_loop cp h self out pi ((i, tok) # rest) =
     (case parse_arg i (Some sw) (if eq = [] then None else Some v) info of
        Inl e \<Rightarrow> Some (h, Inl e)
      | Inr d \<Rightarrow> parse_loop cp h self (dict_merge out d) pi rest)"
  using assms by simp

subsection \<open>Switches given without a value\<close>

text \<open>
  Claim C5. Let a token start with \<open>-\<close>, contain no \<open>=\<close> and be a registered alias.
  If the parser of its definition is \<open>"str"\<close>, \<open>"int"\<close> or \<open>"float"\<close>, \<open>parse_arg\<close> raises
  \<open>ValueNotProvided\<close> with the token's index, and so does the loop of \<open>_parse\<close> when it
  reaches the token. If the parser is \<open>"bool"\<close>, \<open>parse_arg\<close> yields \<open>True\<close> under the
  definition's name, and the loop goes on with that entry merged into the result.
\<close>

theorem switch_without_value:
  assumes "startswith tok ''-''"
    and "CHR ''='' \<notin> set tok"
    and "map_of (switches (h self)) tok = Some info"
  shows "(parser info \<in> {Tag ''str'', Tag ''int'', Tag ''float''} \<longrightarrow>
            parse_arg i (Some tok) None info = Inl (CommandLineError (ValueNotProvided i)) \<and>
            parse_loop cp h self out pi ((i, tok) # rest) =
              Some (h, Inl (CommandLineError (ValueNotProvided i)))) \<and>
         (parser info = Tag ''bool'' \<longrightarrow>
            parse_arg i (Some tok) None info = Inr [(name info, VBool True)] \<and>
            parse_loop cp h self out pi ((i, tok) # rest) =
              parse_loop cp h self (dict_merge out [(name info, VBool True)]) pi rest)"
proof -
  have p: "partition_str tok (CHR ''='') = (tok, [], [])"
    using assms(2) by (rule partition_str_absent)
  have l: "parse_loop cp h self out pi ((i, tok) # rest) =
     (case parse_arg i (Some tok) None info of
        Inl e \<Rightarrow> Some (h, Inl e)
      | Inr d \<Rightarrow> parse_loop cp h self (dict_merge out d) pi rest)"
    using assms(1,3) p by simp
  show ?thesis
    unfolding l by (auto simp: parse_arg_absent)
qed

theorem switch_without_value_witness:
  "parse_loop (\<lambda>h c. None) example_schema 0 [] 0 [(1, ''--count'')] =
     Some (example_schema, Inl (CommandLineError (ValueNotProvided 1))) \<and>
   parse_loop (\<lambda>h c. None) verbose_schema 0 [] 0 [(1, ''-v'')] =
     Some (verbose_schema, Inr ([(''verbose'', VBool True)], 0))"
  using switch_without_value [of "''--count''" example_schema 0 count_info 1 "\<lambda>h c. None" "[]" 0 "[]"]
    switch_without_value [of "''-v''" verbose_schema 0 verbose_info 1 "\<lambda>h c. None" "[]" 0 "[]"]
  by (simp add: schema_defs startswith_def dict_merge_def)

text \<open>
  Claim C10. With any parser other than \<open>"bool"\<close>, in particular a list of allowed
  values or a callable, an absent value makes \<open>parse_arg\<close> raise \<open>ValueNotProvided\<close>
  with the token's index. With a callable \<open>f\<close> the result of \<open>parse_arg\<close> is that error
  when the value is absent, whatever \<open>f\<close> would do, and otherwise what \<open>f\<close> returns or
  raises on the value that is present: \<open>f\<close> is never applied to an absent value.
\<close>

theorem absent_value_precedes_dispatch:
  "(parser argdef \<noteq> Tag ''bool'' \<longrightarrow>
      parse_arg i arg None argdef = Inl (CommandLineError (ValueNotProvided i))) \<and>
   (parser argdef = Choices vals \<longrightarrow>
      parse_arg i arg None argdef = Inl (CommandLineError (ValueNotProvided i))) \<and>
   (parser argdef = Callable f \<longrightarrow>
      parse_arg i arg val argdef =
        (case val of
           None \<Rightarrow> Inl (CommandLineError (ValueNotProvided i))
         | Some v \<Rightarrow>
             (case f i arg (Some v) of
                Inl e \<Rightarrow> Inl e
              | Inr x \<Rightarrow> Inr [(name argdef, x)])))"
  by (simp add: parse_arg_def split: option.splits)

theorem absent_value_precedes_dispatch_witness:
  "parse_arg 1 (Some ''--level'') None level_info =
     Inl (CommandLineError (ValueNotProvided 1)) \<and>
   parse_arg 1 (Some ''--mode'') None mode_arg =
     Inl (CommandLineError (ValueNotProvided 1))"
  using absent_value_precedes_dispatch [where argdef = level_info and i = 1
      and arg = "Some ''--level''" and vals = "[[], ''low'', ''high'']"
      and f = "\<lambda>i arg val. Inr VNone" and val = None]
    absent_value_precedes_dispatch [where argdef = mode_arg and i = 1
      and arg = "Some ''--mode''" and vals = "[]"
      and f = "\<lambda>i arg val. Inr (case val of None \<Rightarrow> VNone | Some v \<Rightarrow> VStr v)"
      and val = None]
  by (simp add: level_info_def mode_arg_def)

subsection \<open>The loop of \<open>_parse\<close>: composition, store, termination\<close>

lemma parse_loop_append:
  "parse_loop cp h self out pi (xs @ ys) =
     (case parse_loop cp h self out pi xs of
        None \<Rightarrow> None
      | Some (h', r) \<Rightarrow>
          (case r of
             Inl e \<Rightarrow> Some (h', Inl e)
           | Inr (out', pi') \<Rightarrow> parse_loop cp h' self out' pi' ys))"
proof (induction cp h self out pi xs rule: parse_loop.induct)
  case (1 child_parse h self out positional_index)
  then show ?case by simp
next
  case (2 child_parse h self out positional_index i arg argv_iter)
  then show ?case
    by (simp split: prod.splits option.splits sum.splits)
qed

lemma parse_loop_frame:
  assumes "\<And>h c h' r. cp h c = Some (h', r) \<Longrightarrow> h' = h"
  shows "parse_loop cp h self out pi xs = Some (h', r) \<Longrightarrow> h' = h"
  using assms
proof (induction cp h self out pi xs rule: parse_loop.induct)
  case (1 child_parse h self out positional_index)
  then show ?case by simp
next
  case (2 child_parse h self out positional_index i arg argv_iter)
  show ?case
  proof (cases "startswith arg ''-''")
    case True
    with 2 show ?thesis
      by (auto split: prod.splits option.splits sum.splits if_splits)
  next
    case False
    show ?thesis
    proof (cases "map_of (subcommands (h self)) arg")
      case None
      with False 2 show ?thesis
        by (auto split: prod.splits option.splits sum.splits if_splits)
    next
      case (Some cmd)
      show ?thesis
      proof (cases "child_parse h cmd")
        case None
        with False Some 2 show ?thesis by simp
      next
        case (Some a)
        then obtain h1 r1 where a: "child_parse h cmd = Some (h1, r1)" by (cases a) auto
        then have h1: "h1 = h" using "2.prems"(2) by blast
        show ?thesis
        proof (cases r1)
          case (Inl e)
          with False \<open>map_of (subcommands (h self)) arg = Some cmd\<close> a h1 "2.prems"(1)
          show ?thesis by simp
        next
          case (Inr res)
          with False \<open>map_of (subcommands (h self)) arg = Some cmd\<close> a h1 "2.prems" "2.IH"
          show ?thesis by auto
        qed
      qed
    qed
  qed
qed


lemma priv_parse_frame:
  assumes "\<And>h c h' r. cp h c = Some (h', r) \<Longrightarrow> h' = h"
    and "priv_parse cp h self xs = Some (h', r)"
  shows "h' = h"
proof (cases "parse_loop cp h self [] 0 xs")
  case None
  with assms(2) show ?thesis by (simp add: priv_parse_def)
next
  case (Some a)
  then obtain h1 r1 where a: "parse_loop cp h self [] 0 xs = Some (h1, r1)"
    by (cases a) auto
  have "h1 = h"
    using parse_loop_frame [OF assms(1) a] .
  moreover have "h' = h1"
    using assms(2) a
    by (auto simp: priv_parse_def split: sum.splits prod.splits if_splits)
  ultimately show ?thesis by simp
qed

lemma parse_frame:
  "parse n h self binary argv = Some (h', r) \<Longrightarrow> h' = h"
proof (induction n arbitrary: h self binary h' r)
  case 0
  then show ?case by simp
next
  case (Suc n)
  have cp: "\<And>h c h' r. parse n h c ArgvIter argv = Some (h', r) \<Longrightarrow> h' = h"
    using Suc.IH by blast
  show ?case
  proof (cases "priv_parse (\<lambda>h' cmd. parse n h' cmd ArgvIter argv) h self (tl (enumerate 0 argv))")
    case None
    with Suc.prems show ?thesis
      by (auto split: if_splits option.splits)
  next
    case (Some a)
    then obtain h1 r1 where a:
      "priv_parse (\<lambda>h' cmd. parse n h' cmd ArgvIter argv) h self (tl (enumerate 0 argv)) = Some (h1, r1)"
      by (cases a) auto
    have "h1 = h"
      using priv_parse_frame [where cp = "\<lambda>h' cmd. parse n h' cmd ArgvIter argv", OF cp a] .
    with Suc.prems a show ?thesis
      by (auto split: if_splits option.splits sum.splits exn.splits)
  qed
qed

lemma priv_print_usage_returns:
  "nested_below n h self \<Longrightarrow> priv_print_usage n h self = Some ()"
proof (induction n arbitrary: self)
  case 0
  then show ?case by simp
next
  case (Suc n)
  then show ?case
    by (auto simp: list_all_iff)
qed

lemma parse_loop_returns:
  assumes "\<And>h c h' r. cp h c = Some (h', r) \<Longrightarrow> h' = h"
    and "\<And>nm c. (nm, c) \<in> set (subcommands (h self)) \<Longrightarrow> \<exists>r. cp h c = Some r"
  shows "\<exists>r. parse_loop cp h self out pi xs = Some r"
  using assms
proof (induction cp h self out pi xs rule: parse_loop.induct)
  case (1 child_parse h self out positional_index)
  then show ?case by simp
next
  case (2 child_parse h self out positional_index i arg argv_iter)
  show ?case
  proof (cases "startswith arg ''-''")
    case True
    with 2 show ?thesis
      by (auto split: prod.splits option.splits sum.splits if_splits)
  next
    case False
    show ?thesis
    proof (cases "map_of (subcommands (h self)) arg")
      case None
      with False 2 show ?thesis
        by (auto split: prod.splits option.splits sum.splits if_splits)
    next
      case (Some cmd)
      then have "(arg, cmd) \<in> set (subcommands (h self))"
        by (rule map_of_SomeD)
      then obtain a where "child_parse h cmd = Some a"
        using "2.prems"(2) by blast
      then obtain h1 r1 where a: "child_parse h cmd = Some (h1, r1)" by (cases a) auto
      then have h1: "h1 = h" using "2.prems"(1) by blast
      show ?thesis
      proof (cases r1)
        case (Inl e)
        with False Some a show ?thesis by simp
      next
        case (Inr res)
        with False Some a h1 "2.prems" "2.IH"
        show ?thesis by auto
      qed
    qed
  qed
qed

lemma priv_parse_returns:
  assumes "\<And>h c h' r. cp h c = Some (h', r) \<Longrightarrow> h' = h"
    and "\<And>nm c. (nm, c) \<in> set (subcommands (h self)) \<Longrightarrow> \<exists>r. cp h c = Some r"
  shows "\<exists>r. priv_parse cp h self xs = Some r"
proof -
  have "\<exists>r. parse_loop cp h self [] 0 xs = Some r"
  proof (rule parse_loop_returns)
    show "\<And>h c h' r. cp h c = Some (h', r) \<Longrightarrow> h' = h" by (rule assms(1))
    show "\<And>nm c. (nm, c) \<in> set (subcommands (h self)) \<Longrightarrow> \<exists>r. cp h c = Some r"
      by (rule assms(2))
  qed
  then obtain a where "parse_loop cp h self [] 0 xs = Some a" by blast
  then show ?thesis
    by (auto simp: priv_parse_def split: sum.splits prod.splits)
qed

lemma parse_returns:
  "nested_below n h self \<Longrightarrow> \<exists>r. parse n h self binary argv = Some r"
proof (induction n arbitrary: self binary)
  case 0
  then show ?case by simp
next
  case (Suc n)
  let ?cp = "\<lambda>h' cmd. parse n h' cmd ArgvIter argv"
  have frame: "\<And>h c h' r. ?cp h c = Some (h', r) \<Longrightarrow> h' = h"
    by (rule parse_frame)
  have children: "\<And>nm c. (nm, c) \<in> set (subcommands (h self)) \<Longrightarrow> \<exists>r. ?cp h c = Some r"
  proof -
    fix nm c
    assume "(nm, c) \<in> set (subcommands (h self))"
    with Suc.prems have "nested_below n h c"
      by (auto simp: list_all_iff)
    then show "\<exists>r. ?cp h c = Some r"
      by (rule Suc.IH)
  qed
  have "\<exists>r. priv_parse ?cp h self (tl (enumerate 0 argv)) = Some r"
  proof (rule priv_parse_returns)
    show "\<And>h c h' r. ?cp h c = Some (h', r) \<Longrightarrow> h' = h" by (rule frame)
    show "\<And>nm c. (nm, c) \<in> set (subcommands (h self)) \<Longrightarrow> \<exists>r. ?cp h c = Some r"
      by (rule children)
  qed
  then obtain a where a: "priv_parse ?cp h self (tl (enumerate 0 argv)) = Some a" by blast
  have usage: "priv_print_usage (Suc n) h self = Some ()"
    using Suc.prems by (rule priv_print_usage_returns)
  show ?case
    using a usage
    by (auto split: sum.splits exn.splits prod.splits)
qed

text \<open>
  Claim C7. \<open>parse\<close> returns on every schema that is a finite tree and on every
  token list: if every chain of subcommands from \<open>self\<close> has fewer than \<open>n\<close> nodes,
  then \<open>n\<close> nested activations of \<open>parse\<close> suffice, whatever \<open>sys.argv\<close> is. The bound
  depends on the schema only; the loop of each activation is a recursion over the
  pairs of \<open>enumerate(sys.argv)\<close>, one step for each pair.
\<close>

theorem parse_terminates:
  "nested_below n h self \<Longrightarrow> \<exists>r. parse n h self binary argv = Some r"
  by (rule parse_returns)

theorem parse_terminates_witness:
  "nested_below 2 example_schema 0 \<and>
   (\<exists>r. parse 2 example_schema 0 (BinaryName ''script.py'')
          [''script.py'', ''alice'', ''run''] = Some r)"
proof -
  have n: "nested_below 2 example_schema 0"
    by (simp add: schema_defs numeral_2_eq_2)
  from parse_terminates [OF n] n show ?thesis by blast
qed

text \<open>
  Claim C8. Whatever \<open>parse\<close> returns or raises, the store it leaves is the store it
  was given: no attribute of any \<open>Command\<close> object has changed. (A custom callable is
  modelled by its result, so it does not touch the store either.)
\<close>

theorem schema_read_only:
  "parse n h self binary argv = Some (h', r) \<Longrightarrow> h' = h"
  by (rule parse_frame)

theorem schema_read_only_witness:
  "\<exists>r. parse 2 example_schema 0 (BinaryName ''script.py'')
         [''script.py'', ''alice'', ''run''] = Some (example_schema, r)"
proof -
  have "nested_below 2 example_schema 0"
    by (simp add: schema_defs numeral_2_eq_2)
  then obtain a where a: "parse 2 example_schema 0 (BinaryName ''script.py'')
         [''script.py'', ''alice'', ''run''] = Some a"
    using parse_returns by blast
  obtain h' r where "a = (h', r)" by (cases a) auto
  with a schema_read_only [of 2 example_schema 0 "BinaryName ''script.py''"
      "[''script.py'', ''alice'', ''run'']" h' r]
  show ?thesis by auto
qed

subsection \<open>Merging into the result\<close>

lemma map_of_dict_merge:
  "map_of (dict_merge a b) k =
     (case map_of (dict_merge [] b) k of Some x \<Rightarrow> Some x | None \<Rightarrow> map_of a k)"
  unfolding dict_merge_def
proof (induction b rule: rev_induct)
  case Nil
  then show ?case by simp
next
  case (snoc x xs)
  obtain k' v where x: "x = (k', v)" by (cases x) auto
  show ?case
    unfolding x using snoc
    by (simp add: update_conv')
qed

lemma dict_merge_single: "dict_merge [] [(k, v)] = [(k, v)]"
  by (simp add: dict_merge_def)

lemma dict_merge_distinct:
  "distinct (map fst a) \<Longrightarrow> distinct (map fst (dict_merge a b))"
  unfolding dict_merge_def
proof (induction b arbitrary: a)
  case Nil
  then show ?case by simp
next
  case (Cons x xs)
  obtain k v where x: "x = (k, v)" by (cases x) auto
  from Cons.prems have "distinct (map fst (AList.update k v a))"
    by (simp add: distinct_update)
  from Cons.IH [OF this] show ?case
    unfolding x by simp
qed

lemma update_fresh:
  "k \<notin> fst ` set a \<Longrightarrow> AList.update k v a = a @ [(k, v)]"
  by (induction a) auto

lemma dict_merge_fresh:
  "distinct (map fst (a @ b)) \<Longrightarrow> dict_merge a b = a @ b"
  unfolding dict_merge_def
proof (induction b arbitrary: a)
  case Nil
  then show ?case by simp
next
  case (Cons x xs)
  obtain k v where x: "x = (k, v)" by (cases x) auto
  from Cons.prems have "AList.update k v a = a @ [(k, v)]"
    unfolding x by (intro update_fresh) auto
  with Cons.IH [of "a @ [x]"] Cons.prems show ?case
    unfolding x by simp
qed

lemma dict_merge_literal: "dict_merge [] (dict_literal kvs) = dict_literal kvs"
proof -
  have "distinct (map fst (dict_literal kvs))"
    unfolding dict_literal_def by (rule dict_merge_distinct) simp
  then show ?thesis
    using dict_merge_fresh [of "[]" "dict_literal kvs"] by simp
qed

lemma parse_arg_single:
  "parse_arg i arg val argdef = Inr d \<Longrightarrow> \<exists>x. d = [(name argdef, x)]"
  by (auto simp: parse_arg_def split: if_splits sum.splits)

lemma parse_loop_one:
  assumes "parse_loop cp h self out pi [t] = Some (h', Inr (out', pi'))"
  shows "\<exists>d. parse_loop cp h self [] pi [t] = Some (h', Inr (d, pi')) \<and>
             out' = dict_merge out d \<and> dict_merge [] d = d"
proof -
  obtain i arg where t: "t = (i, arg)" by (cases t) auto
  show ?thesis
  proof (cases "startswith arg ''-''")
    case True
    obtain sw eq v where p: "partition_str arg (CHR ''='') = (sw, eq, v)"
      by (cases "partition_str arg (CHR ''='')") auto
    define val where "val = (if eq = [] then None else Some v)"
    show ?thesis
    proof (cases "map_of (switches (h self)) sw")
      case None
      with assms True p show ?thesis unfolding t by simp
    next
      case (Some info)
      have l: "\<And>out. parse_loop cp h self out pi [(i, arg)] =
        (case parse_arg i (Some sw) val info of
           Inl e \<Rightarrow> Some (h, Inl e)
         | Inr d \<Rightarrow> Some (h, Inr (dict_merge out d, pi)))"
        using True p Some by (simp add: val_def split: sum.splits)
      show ?thesis
      proof (cases "parse_arg i (Some sw) val info")
        case (Inl e)
        with assms show ?thesis unfolding t l by simp
      next
        case (Inr d)
        then obtain x where d: "d = [(name info, x)]"
          using parse_arg_single by blast
        from assms Inr show ?thesis
          unfolding t l d by (simp add: dict_merge_single)
      qed
    qed
  next
    case False
    show ?thesis
    proof (cases "map_of (subcommands (h self)) arg")
      case None
      show ?thesis
      proof (cases "pi \<ge> length (positionals (h self))")
        case True
        with assms False None show ?thesis unfolding t by simp
      next
        case ge: False
        show ?thesis
        proof (cases "parse_arg i None (Some arg) (positionals (h self) ! pi)")
          case (Inl e)
          with assms False None ge show ?thesis unfolding t by simp
        next
          case (Inr d)
          then obtain x where d: "d = [(name (positionals (h self) ! pi), x)]"
            using parse_arg_single by blast
          from assms False None ge Inr show ?thesis
            unfolding t d by (auto simp: dict_merge_single)
        qed
      qed
    next
      case (Some cmd)
      show ?thesis
      proof (cases "cp h cmd")
        case None
        with assms False Some show ?thesis unfolding t by simp
      next
        case c: (Some a)
        obtain h1 r1 where a: "a = (h1, r1)" by (cases a) auto
        show ?thesis
        proof (cases r1)
          case (Inl e)
          with assms False Some c a show ?thesis unfolding t by simp
        next
          case (Inr res)
          with assms False Some c a show ?thesis
            unfolding t by (simp add: dict_merge_literal)
        qed
      qed
    qed
  qed
qed

lemma check_switches_keeps:
  "check_switches out sws = Inr res \<Longrightarrow> map_of out k = Some x \<Longrightarrow> map_of res k = Some x"
proof (induction out sws rule: check_switches.induct)
  case (1 out)
  then show ?case by simp
next
  case (2 out sw sws)
  then show ?case
    by (cases "k = name sw") (auto simp: update_conv' split: if_splits option.splits)
qed

lemma check_switches_error:
  "check_switches out sws = Inl e \<Longrightarrow> \<exists>m. e = CommandLineError (MissingOption m)"
  by (induction out sws rule: check_switches.induct) (auto split: if_splits option.splits)

lemma check_positionals_error:
  "check_positionals out ps = Inl e \<Longrightarrow> \<exists>m. e = CommandLineError (MissingOption m)"
  by (induction out ps rule: check_positionals.induct) (auto split: if_splits)

lemma check_positionals_missing:
  "p \<in> set ps \<Longrightarrow> \<not> optional p \<Longrightarrow> map_of out (name p) = None \<Longrightarrow>
     \<exists>e. check_positionals out ps = Inl e"
  by (induction out ps rule: check_positionals.induct) auto

lemma check_switches_required:
  "check_switches out sws = Inr res \<Longrightarrow> s \<in> set sws \<Longrightarrow> \<not> optional s \<Longrightarrow>
     map_of res (name s) \<noteq> None"
proof (induction out sws rule: check_switches.induct)
  case (1 out)
  then show ?case by simp
next
  case (2 out sw sws)
  show ?case
  proof (cases "s = sw")
    case False
    with 2 show ?thesis
      by (auto split: if_splits option.splits)
  next
    case True
    show ?thesis
    proof (cases "map_of out (name sw)")
      case None
      with 2 True obtain d where d: "arg_default sw = Some d"
        and r: "check_switches (AList.update (name sw) d out) sws = Inr res"
        by (auto split: option.splits)
      have "map_of (AList.update (name sw) d out) (name sw) = Some d"
        by (simp add: update_conv')
      from check_switches_keeps [OF r this] True show ?thesis by simp
    next
      case (Some x)
      with 2 True have "check_switches out sws = Inr res" by simp
      from check_switches_keeps [OF this Some] True show ?thesis by simp
    qed
  qed
qed

lemma check_switches_value:
  "check_switches out sws = Inr res \<Longrightarrow> map_of out k = None \<Longrightarrow>
     map_of res k =
       (case find (\<lambda>s. name s = k \<and> \<not> optional s) sws of
          None \<Rightarrow> None
        | Some s \<Rightarrow> arg_default s)"
proof (induction out sws rule: check_switches.induct)
  case (1 out)
  then show ?case by simp
next
  case (2 out sw sws)
  show ?case
  proof (cases "\<not> optional sw \<and> map_of out (name sw) = None")
    case False
    with "2.prems" have r: "check_switches out sws = Inr res" by auto
    from False "2.prems"(2) have "\<not> (name sw = k \<and> \<not> optional sw)" by auto
    with "2.IH"(2) [OF False r "2.prems"(2)] show ?thesis by auto
  next
    case True
    with "2.prems" obtain d where d: "arg_default sw = Some d"
      and r: "check_switches (AList.update (name sw) d out) sws = Inr res"
      by (auto split: option.splits)
    show ?thesis
    proof (cases "name sw = k")
      case k: True
      have "map_of (AList.update (name sw) d out) k = Some d"
        using k by (simp add: update_conv')
      from check_switches_keeps [OF r this] True d k show ?thesis by simp
    next
      case k: False
      then have "map_of (AList.update (name sw) d out) k = None"
        using "2.prems"(2) by (simp add: update_conv')
      from "2.IH"(1) [OF True d r this] k show ?thesis by simp
    qed
  qed
qed

lemma priv_parse_after_loop:
  assumes "parse_loop cp h self [] 0 items = Some (h', Inr (out, pi))"
  shows "priv_parse cp h self items =
     (case check_positionals out (positionals (h' self)) of
        Inl e \<Rightarrow> Some (h', Inl e)
      | Inr _ \<Rightarrow>
          (case check_switches out (map snd (switches (h' self))) of
             Inl e \<Rightarrow> Some (h', Inl e)
           | Inr out' \<Rightarrow>
               if length (subcommands (h' self)) > 0
                  \<and> \<not> subcommands_optional (h' self)
                  \<and> map_of out' ''command'' = None
               then Some (h', Inl (CommandLineError (MissingOption
                      (''command ('' @ join '', '' (map fst (subcommands (h' self)))
                         @ '')''))))
               else Some (h', Inr out')))"
  using assms by (simp add: priv_parse_def)

lemma priv_parse_result:
  assumes "parse_loop cp h self [] 0 items = Some (h', Inr (out, pi))"
    and "priv_parse cp h self items = Some (h2, Inr res)"
  shows "check_switches out (map snd (switches (h' self))) = Inr res"
  using assms(2) unfolding priv_parse_after_loop [OF assms(1)]
  by (auto split: sum.splits if_splits)

lemma priv_parse_failure:
  assumes "parse_loop cp h self [] 0 items = Some (h', Inr (out, pi))"
    and "\<not> (\<exists>res. priv_parse cp h self items = Some (h', Inr res))"
  shows "\<exists>m. priv_parse cp h self items = Some (h', Inl (CommandLineError (MissingOption m)))"
proof (cases "check_positionals out (positionals (h' self))")
  case (Inl e)
  then show ?thesis
    unfolding priv_parse_after_loop [OF assms(1)]
    by (auto dest: check_positionals_error)
next
  case p: (Inr u)
  show ?thesis
  proof (cases "check_switches out (map snd (switches (h' self)))")
    case (Inl e)
    with p show ?thesis
      unfolding priv_parse_after_loop [OF assms(1)]
      by (auto dest: check_switches_error)
  next
    case (Inr out')
    with p assms(2) show ?thesis
      unfolding priv_parse_after_loop [OF assms(1)]
      by (simp split: if_splits)
  qed
qed

text \<open>
  Claim C3. The result is accumulated by a right-biased merge. Whenever the loop of
  \<open>_parse\<close> gets through the tokens \<open>pre\<close> followed by a token \<open>t\<close>, its result is the
  result for \<open>pre\<close> merged with the dictionary \<open>d\<close> that \<open>t\<close> alone produces: every key
  that \<open>t\<close> assigns has the value from \<open>t\<close>, whatever an earlier token assigned to it,
  and every other key keeps its earlier value. The checks after the loop do not change
  a value that a token has assigned. In particular, with an integer switch \<open>x\<close> of alias
  \<open>--x\<close>, the tokens \<open>--x=1\<close> and \<open>--x=2\<close> give the value 2 under \<open>x\<close>.
\<close>

theorem later_token_overwrites:
  "(parse_loop cp h self [] 0 (pre @ [t]) = Some (h2, Inr (out2, pi2)) \<longrightarrow>
      (\<exists>h1 out1 pi1 d.
         parse_loop cp h self [] 0 pre = Some (h1, Inr (out1, pi1)) \<and>
         parse_loop cp h1 self [] pi1 [t] = Some (h2, Inr (d, pi2)) \<and>
         out2 = dict_merge out1 d \<and>
         (\<forall>k. map_of out2 k =
                (case map_of d k of Some x \<Rightarrow> Some x | None \<Rightarrow> map_of out1 k)) \<and>
         (\<forall>res k x. priv_parse cp h self (pre @ [t]) = Some (h2, Inr res) \<and>
                map_of out2 k = Some x \<longrightarrow> map_of res k = Some x))) \<and>
   (map_of (switches (h self)) ''--x'' = Some info \<and> name info = ''x'' \<and>
      parser info = Tag ''int'' \<and>
      priv_parse cp h self [(i, ''--x=1''), (j, ''--x=2'')] = Some (h', Inr res') \<longrightarrow>
      map_of res' ''x'' = Some (VInt 2))"
proof (intro conjI impI)
  assume a: "parse_loop cp h self [] 0 (pre @ [t]) = Some (h2, Inr (out2, pi2))"
  then obtain h1 out1 pi1 where
    pre: "parse_loop cp h self [] 0 pre = Some (h1, Inr (out1, pi1))" and
    last: "parse_loop cp h1 self out1 pi1 [t] = Some (h2, Inr (out2, pi2))"
    by (auto simp: parse_loop_append split: option.splits sum.splits prod.splits)
  from parse_loop_one [OF last] obtain d where
    d: "parse_loop cp h1 self [] pi1 [t] = Some (h2, Inr (d, pi2))" and
    m: "out2 = dict_merge out1 d" and i: "dict_merge [] d = d"
    by blast
  have v: "\<forall>k. map_of out2 k =
      (case map_of d k of Some x \<Rightarrow> Some x | None \<Rightarrow> map_of out1 k)"
    unfolding m using map_of_dict_merge [of out1 d] by (simp add: i)
  have r: "\<forall>res k x. priv_parse cp h self (pre @ [t]) = Some (h2, Inr res) \<and>
      map_of out2 k = Some x \<longrightarrow> map_of res k = Some x"
    using priv_parse_result [OF a] check_switches_keeps by blast
  from pre d m v r show "\<exists>h1 out1 pi1 d.
         parse_loop cp h self [] 0 pre = Some (h1, Inr (out1, pi1)) \<and>
         parse_loop cp h1 self [] pi1 [t] = Some (h2, Inr (d, pi2)) \<and>
         out2 = dict_merge out1 d \<and>
         (\<forall>k. map_of out2 k =
                (case map_of d k of Some x \<Rightarrow> Some x | None \<Rightarrow> map_of out1 k)) \<and>
         (\<forall>res k x. priv_parse cp h self (pre @ [t]) = Some (h2, Inr res) \<and>
                map_of out2 k = Some x \<longrightarrow> map_of res k = Some x)"
    by blast
next
  assume b: "map_of (switches (h self)) ''--x'' = Some info \<and> name info = ''x'' \<and>
      parser info = Tag ''int'' \<and>
      priv_parse cp h self [(i, ''--x=1''), (j, ''--x=2'')] = Some (h', Inr res')"
  then have l: "parse_loop cp h self [] 0 [(i, ''--x=1''), (j, ''--x=2'')] =
      Some (h, Inr ([(''x'', VInt 2)], 0))"
    by (simp add: eval_defs)
  from b have "h' = h"
    unfolding priv_parse_after_loop [OF l] by (auto split: sum.splits if_splits)
  with b have "priv_parse cp h self [(i, ''--x=1''), (j, ''--x=2'')] = Some (h, Inr res')"
    by simp
  from check_switches_keeps [OF priv_parse_result [OF l this], of "''x''" "VInt 2"]
  show "map_of res' ''x'' = Some (VInt 2)" by simp
qed

theorem later_token_overwrites_witness:
  "parse_loop (\<lambda>h c. None) x_schema 0 [] 0 [(1, ''--x=1''), (2, ''--x=2'')] =
     Some (x_schema, Inr ([(''x'', VInt 2)], 0)) \<and>
   parse 1 x_schema 0 (BinaryName ''script.py'') [''script.py'', ''--x=1'', ''--x=2''] =
     Some (x_schema, Inr [(''x'', VInt 2)]) \<and>
   map_of [(''x'', VInt 2)] ''x'' = Some (VInt 2)"
proof -
  have l: "parse_loop (\<lambda>h c. None) x_schema 0 [] 0 ([(1, ''--x=1'')] @ [(2, ''--x=2'')]) =
      Some (x_schema, Inr ([(''x'', VInt 2)], 0))"
    by (simp add: eval_defs x_schema_at info_defs)
  have p: "parse 1 x_schema 0 (BinaryName ''script.py'') [''script.py'', ''--x=1'', ''--x=2''] =
     Some (x_schema, Inr [(''x'', VInt 2)])"
    by (simp add: eval_defs x_schema_at info_defs)
  have q: "priv_parse (\<lambda>h c. None) x_schema 0 [(1, ''--x=1''), (2, ''--x=2'')] =
     Some (x_schema, Inr [(''x'', VInt 2)])"
    by (simp add: eval_defs x_schema_at info_defs)
  from later_token_overwrites [where cp = "\<lambda>h c. None" and h = x_schema and self = 0
      and pre = "[(1, ''--x=1'')]" and t = "(2, ''--x=2'')" and ?h2.0 = x_schema
      and ?out2.0 = "[(''x'', VInt 2)]" and ?pi2.0 = 0 and info = x_info and i = 1 and j = 2
      and h' = x_schema and res' = "[(''x'', VInt 2)]"] l p q
  show ?thesis by (simp add: x_schema_at info_defs)
qed

subsection \<open>Validation after the last token\<close>

text \<open>
  Claim C4, amended. Let the loop of \<open>_parse\<close> end with the result \<open>out\<close>. A
  positional that is not optional and whose name is not in \<open>out\<close> makes \<open>_parse\<close> raise
  \<open>MissingOption\<close> (a positional has no default). For a name \<open>k\<close> that is not in \<open>out\<close>,
  take the first definition in \<open>self.switches.values()\<close> that has the name \<open>k\<close> and is
  not optional: if it has no default, \<open>_parse\<close> raises \<open>MissingOption\<close>; if it has a
  default and \<open>_parse\<close> returns, the result has that default under \<open>k\<close>; and if there is
  no such definition (the switches of that name are optional, with or without a
  default), \<open>k\<close> is not in the result that \<open>_parse\<close> returns.
\<close>

theorem end_of_stream_validation:
  assumes "parse_loop cp h self [] 0 items = Some (h', Inr (out, pi))"
  shows "(\<forall>p\<in>set (positionals (h' self)).
            \<not> optional p \<and> map_of out (name p) = None \<longrightarrow>
            (\<exists>m. priv_parse cp h self items =
                    Some (h', Inl (CommandLineError (MissingOption m))))) \<and>
         (\<forall>k s. map_of out k = None \<and>
            find (\<lambda>s. name s = k \<and> \<not> optional s) (map snd (switches (h' self))) = Some s \<and>
            arg_default s = None \<longrightarrow>
            (\<exists>m. priv_parse cp h self items =
                    Some (h', Inl (CommandLineError (MissingOption m))))) \<and>
         (\<forall>k s d res. map_of out k = None \<and>
            find (\<lambda>s. name s = k \<and> \<not> optional s) (map snd (switches (h' self))) = Some s \<and>
            arg_default s = Some d \<and>
            priv_parse cp h self items = Some (h', Inr res) \<longrightarrow>
            map_of res k = Some d) \<and>
         (\<forall>k res. map_of out k = None \<and>
            find (\<lambda>s. name s = k \<and> \<not> optional s) (map snd (switches (h' self))) = None \<and>
            priv_parse cp h self items = Some (h', Inr res) \<longrightarrow>
            map_of res k = None)"
proof -
  let ?sws = "map snd (switches (h' self))"
  have val: "map_of res k =
      (case find (\<lambda>s. name s = k \<and> \<not> optional s) ?sws of
         None \<Rightarrow> None | Some s \<Rightarrow> arg_default s)"
    if "map_of out k = None" "priv_parse cp h self items = Some (h', Inr res)" for k res
    using check_switches_value [OF priv_parse_result [OF assms that(2)] that(1)] .
  have c1: "\<exists>m. priv_parse cp h self items = Some (h', Inl (CommandLineError (MissingOption m)))"
    if "p \<in> set (positionals (h' self))" "\<not> optional p" "map_of out (name p) = None" for p
  proof -
    from check_positionals_missing [OF that] obtain e where
      "check_positionals out (positionals (h' self)) = Inl e" by blast
    then have "\<not> (\<exists>res. priv_parse cp h self items = Some (h', Inr res))"
      unfolding priv_parse_after_loop [OF assms] by simp
    from priv_parse_failure [OF assms this] show ?thesis .
  qed
  have c2: "\<exists>m. priv_parse cp h self items = Some (h', Inl (CommandLineError (MissingOption m)))"
    if k: "map_of out k = None"
      and f: "find (\<lambda>s. name s = k \<and> \<not> optional s) ?sws = Some s"
      and n: "arg_default s = None" for k s
  proof -
    have "\<not> (\<exists>res. priv_parse cp h self items = Some (h', Inr res))"
    proof
      assume "\<exists>res. priv_parse cp h self items = Some (h', Inr res)"
      then obtain res where res: "priv_parse cp h self items = Some (h', Inr res)" by blast
      from val [OF k res] f n have a: "map_of res k = None" by simp
      from f have s: "s \<in> set ?sws" "name s = k" "\<not> optional s"
        by (auto simp: find_Some_iff)
      from check_switches_required [OF priv_parse_result [OF assms res] s(1) s(3)] s(2) a
      show False by simp
    qed
    from priv_parse_failure [OF assms this] show ?thesis .
  qed
  show ?thesis
    using c1 c2 val by (auto simp del: map_map)
qed

theorem end_of_stream_validation_witness:
  "priv_parse (\<lambda>h c. None) port_schema 0 [(1, ''alice'')] =
     Some (port_schema, Inr [(''name'', VStr ''alice''), (''port'', VInt 8080)]) \<and>
   map_of [(''name'', VStr ''alice''), (''port'', VInt 8080)] ''port'' = Some (VInt 8080) \<and>
   map_of [(''name'', VStr ''alice''), (''port'', VInt 8080)] ''count'' = None \<and>
   (\<exists>m. priv_parse (\<lambda>h c. None) x_schema 0 [] =
      Some (x_schema, Inl (CommandLineError (MissingOption m))))"
proof -
  have l: "parse_loop (\<lambda>h c. None) port_schema 0 [] 0 [(1, ''alice'')] =
      Some (port_schema, Inr ([(''name'', VStr ''alice'')], 1))"
    by (simp add: eval_defs port_schema_at info_defs)
  have r: "priv_parse (\<lambda>h c. None) port_schema 0 [(1, ''alice'')] =
     Some (port_schema, Inr [(''name'', VStr ''alice''), (''port'', VInt 8080)])"
    by (simp add: eval_defs port_schema_at info_defs)
  have l2: "parse_loop (\<lambda>h c. None) x_schema 0 [] 0 [] = Some (x_schema, Inr ([], 0))"
    by simp
  have f: "find (\<lambda>s. name s = ''x'' \<and> \<not> optional s) (map snd (switches (x_schema 0))) =
      Some x_info"
    by (simp add: x_schema_at info_defs)
  have "map_of [] ''x'' = None \<and>
      find (\<lambda>s. name s = ''x'' \<and> \<not> optional s) (map snd (switches (x_schema 0))) =
        Some x_info \<and> arg_default x_info = None"
    using f by (simp add: x_info_def)
  with end_of_stream_validation [OF l2]
  have m: "\<exists>m. priv_parse (\<lambda>h c. None) x_schema 0 [] =
      Some (x_schema, Inl (CommandLineError (MissingOption m)))"
    by blast
  show ?thesis
    using end_of_stream_validation [OF l] r m
    by simp
qed

text \<open>
  The claim as stated fails on an optional switch with a default: with the positional
  \<open>name\<close> and the optional switch \<open>--count\<close> of default 5, the tokens \<open>alice\<close> give a
  result without \<open>count\<close>.
\<close>

theorem optional_default_not_filled:
  "optional count_info \<and> arg_default count_info = Some (VInt 5) \<and>
   parse 1 count_schema 0 (BinaryName ''script.py'') [''script.py'', ''alice''] =
     Some (count_schema, Inr [(''name'', VStr ''alice'')]) \<and>
   map_of [(''name'', VStr ''alice'')] (name count_info) = None"
  by (simp add: eval_defs schema_defs)

subsection \<open>Unknown switches\<close>

text \<open>
  Claim C6, amended. If the loop of \<open>_parse\<close> gets through the tokens before index
  \<open>i\<close> without an exception, and the token at index \<open>i\<close> starts with \<open>-\<close> and its part
  before the first \<open>=\<close> is not a registered alias, then \<open>_parse\<close> raises
  \<open>UnknownSwitch\<close> with index \<open>i\<close> and that part.
\<close>

theorem unknown_switch_after_prefix:
  assumes "parse_loop cp h self [] 0 pre = Some (h', Inr (out, pi))"
    and "startswith tok ''-''"
    and "map_of (switches (h' self)) (fst (partition_str tok (CHR ''=''))) = None"
  shows "priv_parse cp h self (pre @ (i, tok) # post) =
     Some (h', Inl (CommandLineError (UnknownSwitch i (fst (partition_str tok (CHR ''=''))))))"
proof -
  obtain sw eq v where p: "partition_str tok (CHR ''='') = (sw, eq, v)"
    by (cases "partition_str tok (CHR ''='')") auto
  with assms(3) have n: "map_of (switches (h' self)) sw = None" by simp
  have "parse_loop cp h' self out pi ((i, tok) # post) =
      Some (h', Inl (CommandLineError (UnknownSwitch i sw)))"
    using assms(2) p n by simp
  then have "parse_loop cp h self [] 0 (pre @ (i, tok) # post) =
      Some (h', Inl (CommandLineError (UnknownSwitch i sw)))"
    using assms(1) by (simp add: parse_loop_append)
  then show ?thesis
    using p by (simp add: priv_parse_def)
qed

theorem unknown_switch_after_prefix_witness:
  "priv_parse (\<lambda>h c. None) example_schema 0 [(1, ''alice''), (2, ''--bad=1''), (3, ''--worse'')] =
     Some (example_schema, Inl (CommandLineError (UnknownSwitch 2 ''--bad'')))"
proof -
  have l: "parse_loop (\<lambda>h c. None) example_schema 0 [] 0 [(1, ''alice'')] =
      Some (example_schema, Inr ([(''name'', VStr ''alice'')], 1))"
    by (simp add: eval_defs schema_defs)
  have s: "startswith ''--bad=1'' ''-''" by (simp add: startswith_def)
  have m: "map_of (switches (example_schema 0)) (fst (partition_str ''--bad=1'' (CHR ''=''))) = None"
    by (simp add: eval_defs schema_defs)
  show ?thesis
    using unknown_switch_after_prefix [OF l s m, of 2 "[(3, ''--worse'')]"]
    by (simp add: partition_str_def)
qed

text \<open>
  Without the condition on the earlier tokens the claim fails: on a command without
  positionals and switches, the tokens \<open>extra\<close>, \<open>--bad\<close> make \<open>_parse\<close> raise
  \<open>TooManyPositionals\<close> with index 1 (and \<open>parse\<close> exit), although the token at index
  2 starts with \<open>-\<close> and is not a registered alias.
\<close>

theorem unknown_switch_not_first_fault:
  "startswith ''--bad'' ''-'' \<and>
   map_of (switches (no_commands 0)) (fst (partition_str ''--bad'' (CHR ''=''))) = None \<and>
   priv_parse (\<lambda>h c. None) no_commands 0 [(1, ''extra''), (2, ''--bad'')] =
     Some (no_commands, Inl (CommandLineError (TooManyPositionals 1 ''extra''))) \<and>
   parse 1 no_commands 0 (BinaryName ''script.py'') [''script.py'', ''extra'', ''--bad''] =
     Some (no_commands, Inl (SystemExit (- 1)))"
  by (simp add: eval_defs schema_defs)

subsection \<open>A switch that ends in \<open>=\<close>\<close>

text \<open>
  Claim C9, amended. A token that is a registered alias followed by a bare \<open>=\<close> has
  the empty string as its value. With any parser but a callable, \<open>parse_arg\<close> does not
  raise \<open>ValueNotProvided\<close>. With \<open>"str"\<close> the loop goes on with the empty string under the
  definition's name; with \<open>"int"\<close>, \<open>"float"\<close> and \<open>"bool"\<close> it raises \<open>InvalidOption\<close>
  with the token's index; with a list of allowed values it raises \<open>InvalidOption\<close> with
  the token's index if the empty string is not in the list, and goes on with the empty
  string as the value if it is.
\<close>

theorem bare_equals_value:
  assumes "startswith sw ''-''"
    and "CHR ''='' \<notin> set sw"
    and "map_of (switches (h self)) sw = Some info"
  shows "((\<forall>f. parser info \<noteq> Callable f) \<longrightarrow>
            parse_arg i (Some sw) (Some []) info \<noteq>
              Inl (CommandLineError (ValueNotProvided i))) \<and>
         (parser info = Tag ''str'' \<longrightarrow>
            parse_loop cp h self out pi ((i, sw @ ''='') # rest) =
              parse_loop cp h self (dict_merge out [(name info, VStr [])]) pi rest) \<and>
         (parser info = Tag ''int'' \<longrightarrow>
            parse_loop cp h self out pi ((i, sw @ ''='') # rest) =
              Some (h, Inl (CommandLineError (InvalidOption i ''int'' [])))) \<and>
         (parser info = Tag ''float'' \<longrightarrow>
            parse_loop cp h self out pi ((i, sw @ ''='') # rest) =
              Some (h, Inl (CommandLineError (InvalidOption i ''float'' [])))) \<and>
         (parser info = Tag ''bool'' \<longrightarrow>
            parse_loop cp h self out pi ((i, sw @ ''='') # rest) =
              Some (h, Inl (CommandLineError (InvalidOption i ''bool switch'' [])))) \<and>
         (\<forall>vals. parser info = Choices vals \<and> [] \<notin> set vals \<longrightarrow>
            parse_loop cp h self out pi ((i, sw @ ''='') # rest) =
              Some (h, Inl (CommandLineError (InvalidOption i (join ''/'' vals) [])))) \<and>
         (\<forall>vals. parser info = Choices vals \<and> [] \<in> set vals \<longrightarrow>
            parse_loop cp h self out pi ((i, sw @ ''='') # rest) =
              parse_loop cp h self (dict_merge out [(name info, VStr [])]) pi rest)"
proof -
  have p: "partition_str (sw @ ''='') (CHR ''='') = (sw, ''='', [])"
    using partition_str_present [OF assms(2), of "[]"] by simp
  have s: "startswith (sw @ ''='') ''-''"
    using assms(1) by (auto simp: startswith_dash)
  have l: "parse_loop cp h self out pi ((i, sw @ ''='') # rest) =
     (case parse_arg i (Some sw) (Some []) info of
        Inl e \<Rightarrow> Some (h, Inl e)
      | Inr d \<Rightarrow> parse_loop cp h self (dict_merge out d) pi rest)"
    using s p assms(3) by simp
  have v: "(\<forall>f. parser info \<noteq> Callable f) \<longrightarrow>
      parse_arg i (Some sw) (Some []) info \<noteq> Inl (CommandLineError (ValueNotProvided i))"
    by (simp add: parse_arg_empty split: parser_spec.splits)
  show ?thesis
    unfolding l using v by (simp add: parse_arg_empty)
qed

theorem bare_equals_value_witness:
  "parse_loop (\<lambda>h c. None) x_schema 0 [] 0 [(1, ''--x='')] =
     Some (x_schema, Inl (CommandLineError (InvalidOption 1 ''int'' [])))"
  using bare_equals_value [where sw = "''--x''" and h = x_schema and self = 0
      and info = x_info and cp = "\<lambda>h c. None" and out = "[]" and pi = 0 and i = 1
      and rest = "[]"]
  by (simp add: schema_defs startswith_def)

text \<open>
  The claim as stated fails on a list of allowed values that has the empty string in
  it: \<open>--level=\<close> is accepted.
\<close>

theorem bare_equals_accepted_by_choices:
  "parse 1 level_schema 0 (BinaryName ''script.py'') [''script.py'', ''--level=''] =
     Some (level_schema, Inr [(''level'', VStr [])])"
  by (simp add: eval_defs schema_defs)

subsection \<open>Subcommands\<close>

text \<open>
  Claim C1 does not hold of the code. \<open>_parse\<close> calls \<open>parse(argv_iter)\<close> on the
  subcommand, not \<open>_parse(argv_iter)\<close>: the iterator arrives as \<open>binary\<close>, and the
  subcommand enumerates \<open>sys.argv\<close> again from index 1. On the example schema the tokens
  \<open>alice\<close>, \<open>run\<close> make the subcommand \<open>run\<close> see \<open>alice\<close>, raise \<open>TooManyPositionals\<close>
  with index 1 and exit with status -1. Where the subcommand accepts all the tokens,
  its result holds the subcommand token and the tokens before it, and the caller goes
  on with the tokens after the subcommand token.
\<close>

theorem subcommand_reparses_argv:
  "parse (Suc (Suc n)) example_schema 0 (BinaryName ''script.py'')
     [''script.py'', ''alice'', ''run''] = Some (example_schema, Inl (SystemExit (- 1))) \<and>
   priv_parse cp example_schema 1 [(1, ''alice''), (2, ''run'')] =
     Some (example_schema, Inl (CommandLineError (TooManyPositionals 1 ''alice''))) \<and>
   parse (Suc (Suc n)) relay_schema 0 (BinaryName ''script.py'') [''script.py'', ''run'', ''x''] =
     Some (relay_schema,
           Inr [(''command'', VStr ''run''),
                (''run'', VDict [(''first'', VStr ''run''), (''second'', VStr ''x'')]),
                (''target'', VStr ''x'')])"
  by (simp add: eval_defs schema_defs)

subsection \<open>Schema-building methods\<close>

lemma builders_return_self:
  "nm \<noteq> ''command'' \<Longrightarrow> \<exists>h'. positional h c nm d p = Inr (h', Ref c)"
  "nm \<noteq> ''command'' \<Longrightarrow> \<exists>h'. switch h c sws nm d p opt dflt = Inr (h', Ref c)"
  "\<exists>h'. subcommand h c nm cmd = Inr (h', Ref c)"
  by (simp_all add: positional_def switch_def subcommand_def Let_def)

text \<open>The example schema, built by the methods.\<close>

lemma example_built:
  "(case positional (init (init no_commands 1 []) 0 []) 0 ''name'' [] (Tag ''str'') of
      Inl e \<Rightarrow> None
    | Inr (h1, r1) \<Rightarrow>
        (case switch h1 0 [''--count''] ''count'' [] (Tag ''int'') True (Some (VInt 5)) of
           Inl e \<Rightarrow> None
         | Inr (h2, r2) \<Rightarrow>
             (case subcommand h2 0 ''run'' 1 of
                Inl e \<Rightarrow> None
              | Inr (h3, r3) \<Rightarrow> Some (h3 0, h3 1, r1, r2, r3)))) =
   Some (example_schema 0, example_schema 1, Ref 0, Ref 0, Ref 0)"
  by (simp add: positional_def switch_def subcommand_def init_def schema_defs)

text \<open>
  Claim C2 does not hold of the code. \<open>positional\<close>, \<open>switch\<close> and \<open>subcommand\<close> return
  \<open>self\<close>; \<open>optional_positionals\<close> and \<open>optional_subcommands\<close> set their flag and return
  \<open>None\<close>.
\<close>

theorem optional_builders_return_none:
  "optional_positionals h c =
     Inr (h(c := (h c)\<lparr>upcoming_positionals_optional := True\<rparr>), PyNone) \<and>
   optional_subcommands h c =
     Inr (h(c := (h c)\<lparr>subcommands_optional := True\<rparr>), PyNone) \<and>
   PyNone \<noteq> Ref c"
  by (simp add: optional_positionals_def optional_subcommands_def)

end
